theory Spec2Isabelle
  imports Main "HOL-Library.Word"
begin

section \<open>Data model of \<open>lib/IRGen/IRGenDebugInfo.h\<close>\<close>

text \<open>
  Pointers are modelled as options: \<open>None\<close> is \<open>nullptr\<close>, \<open>Some x\<close> points to
  the object named \<open>x\<close>. The C++ type \<open>unsigned\<close> is a 32-bit word.
\<close>

text \<open>\<open>typedef struct { unsigned Line, Col; const char* Filename; } Location;\<close>\<close>

record Location =
  Line :: "32 word"
  Col :: "32 word"
  Filename :: "string option"

text \<open>\<open>typedef struct { Location LocForLinetable, Loc; } FullLocation;\<close>\<close>

record FullLocation =
  LocForLinetable :: Location
  Loc :: Location

text \<open>
  Value initialisation, the \<open>{}\<close> of \<open>LastLoc = {}\<close>: every member is zero and
  every pointer is null.
\<close>

definition Location_zero :: Location where
  "Location_zero = \<lparr>Line = 0, Col = 0, Filename = None\<rparr>"

definition FullLocation_zero :: FullLocation where
  "FullLocation_zero = \<lparr>LocForLinetable = Location_zero, Loc = Location_zero\<rparr>"

text \<open>
  \<open>enum IndirectionKind: bool { DirectValue = false, IndirectValue = true };\<close>
  and its two siblings.
\<close>

datatype IndirectionKind = DirectValue | IndirectValue
datatype ArtificialKind = RealValue | ArtificialValue
datatype IntrinsicKind = Declare | Value

text \<open>
  Objects that the header only names through pointers or references are identified by
  their address.
\<close>

datatype SILDebugScope = SILDebugScope nat
datatype SILFunction = SILFunction nat
datatype SILArgument = SILArgument nat
datatype MDNode = MDNode nat

text \<open>
  \<open>llvm::DebugLoc\<close> belongs to the LLVM library, not to this repository. Of its
  interface the header uses the default constructor (the empty location),
  \<open>DebugLoc::get(Line, Col, Scope)\<close> and \<open>getScope\<close>; a line, a column and a
  scope node are all that these three can tell apart.
\<close>

record DebugLoc =
  DL_Line :: "32 word"
  DL_Col :: "32 word"
  DL_Scope :: "MDNode option"

definition DebugLoc_empty :: DebugLoc where
  "DebugLoc_empty = \<lparr>DL_Line = 0, DL_Col = 0, DL_Scope = None\<rparr>"

definition DebugLoc_get :: "32 word \<Rightarrow> 32 word \<Rightarrow> MDNode option \<Rightarrow> DebugLoc" where
  "DebugLoc_get l c s = \<lparr>DL_Line = l, DL_Col = c, DL_Scope = s\<rparr>"

definition getScope :: "DebugLoc \<Rightarrow> MDNode option" where
  "getScope dl = DL_Scope dl"

text \<open>The part of \<open>IRBuilder\<close> that the header reads and writes.\<close>

record IRBuilder =
  CurrentDebugLocation :: DebugLoc

definition getCurrentDebugLocation :: "IRBuilder \<Rightarrow> DebugLoc" where
  "getCurrentDebugLocation b = CurrentDebugLocation b"

definition SetCurrentDebugLocation :: "DebugLoc \<Rightarrow> IRBuilder \<Rightarrow> IRBuilder" where
  "SetCurrentDebugLocation dl b = b\<lparr>CurrentDebugLocation := dl\<rparr>"

text \<open>
  The mutable members of \<open>class IRGenDebugInfo\<close> that the inline member functions and
  \<open>getArgNo\<close> touch. \<open>LastArg\<close> and \<open>LastEnd\<close> are iterators into the argument list of
  \<open>LastFn\<close>: an iterator is the part of that list from the place it stands at to the
  end, so the end iterator is the empty list, advancing drops the first element and
  dereferencing reads it. \<open>LastArgNo\<close> is an \<open>unsigned\<close>. \<open>LocationStack\<close> is a
  \<open>SmallVector\<close>: its back is the last element of the list.
\<close>

record IRGenDebugInfo =
  LastFn :: "SILFunction option"
  LastArg :: "SILArgument list"
  LastEnd :: "SILArgument list"
  LastArgNo :: "32 word"
  LastLoc :: FullLocation
  LastScope :: "SILDebugScope option"
  LocationStack :: "(FullLocation \<times> SILDebugScope option) list"

datatype error = PopEmptyLocationStack | ArgumentNotInFunction | NullSILModule

section \<open>The location tracker\<close>

text \<open>
  \<^verbatim>\<open>
  void clearLoc(IRBuilder &Builder) {
    LastLoc = {};
    LastScope = nullptr;
    Builder.SetCurrentDebugLocation(llvm::DebugLoc());
  }
  \<close>
  The emitter and the builder are both updated in place; the model returns both.
\<close>

definition clearLoc :: "IRGenDebugInfo \<Rightarrow> IRBuilder \<Rightarrow> IRGenDebugInfo \<times> IRBuilder" where
  "clearLoc di Builder =
     (let di1 = di\<lparr>LastLoc := FullLocation_zero\<rparr>;
          di2 = di1\<lparr>LastScope := None\<rparr>
      in (di2, SetCurrentDebugLocation DebugLoc_empty Builder))"

text \<open>
  \<^verbatim>\<open>
  void pushLoc() {
    LocationStack.push_back(std::make_pair(LastLoc, LastScope));
    LastLoc = {};
    LastScope = nullptr;
    //Builder.SetCurrentDebugLocation(DebugLoc());
  }
  \<close>
\<close>

definition pushLoc :: "IRGenDebugInfo \<Rightarrow> IRGenDebugInfo" where
  "pushLoc di =
     (let di1 = di\<lparr>LocationStack := LocationStack di @ [(LastLoc di, LastScope di)]\<rparr>;
          di2 = di1\<lparr>LastLoc := FullLocation_zero\<rparr>
      in di2\<lparr>LastScope := None\<rparr>)"

text \<open>
  Modelled from the spec: \<open>llvm::SmallVector::pop_back_val\<close> is LLVM's and its body is
  not among the sources. It removes the last element and returns it; on an empty vector
  there is no such element, which the specification classes as a fatal contract error
  ("fails (programming error, must never occur in correct usage) if the stack is
  empty"), so the model returns an error there.
\<close>

definition pop_back_val :: "'a list \<Rightarrow> error + ('a \<times> 'a list)" where
  "pop_back_val xs = (if xs = [] then Inl PopEmptyLocationStack else Inr (last xs, butlast xs))"

text \<open>
  \<^verbatim>\<open>
  void popLoc() {
    std::tie(LastLoc, LastScope) = LocationStack.pop_back_val();
  }
  \<close>
\<close>

definition popLoc :: "IRGenDebugInfo \<Rightarrow> error + IRGenDebugInfo" where
  "popLoc di =
     (case pop_back_val (LocationStack di) of
        Inl e \<Rightarrow> Inl e
      | Inr ((loc, scope), rest) \<Rightarrow>
          Inr (di\<lparr>LocationStack := rest, LastLoc := loc, LastScope := scope\<rparr>))"

section \<open>The RAII object \<open>ArtificialLocation\<close>\<close>

text \<open>
  Emitter objects live in a store, at addresses. An \<open>IRGenDebugInfo *\<close> is null or
  the address of an emitter.
\<close>

type_synonym addr = nat
type_synonym store = "addr \<Rightarrow> IRGenDebugInfo"

text \<open>\<open>class ArtificialLocation { IRGenDebugInfo *DI; ... };\<close>\<close>

record ArtificialLocation =
  DI :: "addr option"

text \<open>
  \<^verbatim>\<open>
  ArtificialLocation(IRGenDebugInfo *DI, IRBuilder &Builder) : DI(DI) {
    if (DI) {
      DI->pushLoc();
      llvm::DIDescriptor Scope(Builder.getCurrentDebugLocation().
                               getScope(Builder.getContext()));
      auto DL = llvm::DebugLoc::get(0, 0, Scope);
      Builder.SetCurrentDebugLocation(DL);
    }
  }
  \<close>
  The constructor returns the new object together with the builder and the store, both
  of which it may have updated.
\<close>

definition ArtificialLocation_ctor ::
  "addr option \<Rightarrow> IRBuilder \<Rightarrow> store \<Rightarrow> ArtificialLocation \<times> IRBuilder \<times> store" where
  "ArtificialLocation_ctor DI0 Builder s =
     (let this = \<lparr>DI = DI0\<rparr>
      in case DI this of
           None \<Rightarrow> (this, Builder, s)
         | Some a \<Rightarrow>
             (let s1 = s(a := pushLoc (s a));
                  Scope = getScope (getCurrentDebugLocation Builder);
                  DL = DebugLoc_get 0 0 Scope
              in (this, SetCurrentDebugLocation DL Builder, s1)))"

text \<open>
  \<^verbatim>\<open>
  ~ArtificialLocation() {
    if (DI) DI->popLoc();
  }
  \<close>
\<close>

definition ArtificialLocation_dtor :: "ArtificialLocation \<Rightarrow> store \<Rightarrow> error + store" where
  "ArtificialLocation_dtor this s =
     (case DI this of
        None \<Rightarrow> Inr s
      | Some a \<Rightarrow> (case popLoc (s a) of Inl e \<Rightarrow> Inl e | Inr di \<Rightarrow> Inr (s(a := di))))"

text \<open>
  The specification's \<open>pushArtificialLocation()\<close> and \<open>popLocation()\<close> on the emitter
  at address \<open>a\<close> are the constructor and the destructor of an \<open>ArtificialLocation\<close>
  whose \<open>DI\<close> is that emitter.
\<close>

definition pushArtificialLocation :: "addr \<Rightarrow> IRBuilder \<times> store \<Rightarrow> IRBuilder \<times> store" where
  "pushArtificialLocation a bs = snd (ArtificialLocation_ctor (Some a) (fst bs) (snd bs))"

definition popLocation :: "addr \<Rightarrow> IRBuilder \<times> store \<Rightarrow> error + IRBuilder \<times> store" where
  "popLocation a bs =
     (case ArtificialLocation_dtor \<lparr>DI = Some a\<rparr> (snd bs) of
        Inl e \<Rightarrow> Inl e
      | Inr s \<Rightarrow> Inr (fst bs, s))"

text \<open>
  A driver is a sequence of such calls on one emitter; it stops at the first fatal
  error.
\<close>

datatype call = PushArtificialLocation | PopLocation

fun run :: "addr \<Rightarrow> call list \<Rightarrow> IRBuilder \<times> store \<Rightarrow> error + IRBuilder \<times> store" where
  "run a [] bs = Inr bs"
| "run a (PushArtificialLocation # cs) bs = run a cs (pushArtificialLocation a bs)"
| "run a (PopLocation # cs) bs =
     (case popLocation a bs of Inl e \<Rightarrow> Inl e | Inr bs' \<Rightarrow> run a cs bs')"

text \<open>
  \<open>pops_matched cs d\<close>: in \<open>cs\<close>, started with \<open>d\<close> pushes open, every pop is preceded
  by a push that no earlier pop has consumed. \<open>balanced cs d\<close>: moreover no push is
  left open at the end. \<open>max_depth cs d\<close>: the largest number of pushes open at any
  moment.
\<close>

fun pops_matched :: "call list \<Rightarrow> nat \<Rightarrow> bool" where
  "pops_matched [] d = True"
| "pops_matched (PushArtificialLocation # cs) d = pops_matched cs (Suc d)"
| "pops_matched (PopLocation # cs) d = (0 < d \<and> pops_matched cs (d - 1))"

fun balanced :: "call list \<Rightarrow> nat \<Rightarrow> bool" where
  "balanced [] d = (d = 0)"
| "balanced (PushArtificialLocation # cs) d = balanced cs (Suc d)"
| "balanced (PopLocation # cs) d = (0 < d \<and> balanced cs (d - 1))"

fun max_depth :: "call list \<Rightarrow> nat \<Rightarrow> nat" where
  "max_depth [] d = d"
| "max_depth (PushArtificialLocation # cs) d = max d (max_depth cs (Suc d))"
| "max_depth (PopLocation # cs) d = max d (max_depth cs (d - 1))"

text \<open>The emission context of an emitter: its last location and its last scope.\<close>

definition EmissionContext :: "IRGenDebugInfo \<Rightarrow> FullLocation \<times> SILDebugScope option" where
  "EmissionContext di = (LastLoc di, LastScope di)"

text \<open>
  The frames of an emitter are its saved contexts followed by its current one;
  \<open>set_frames\<close> writes a non-empty list of frames back into an emitter. Both serve to
  state how a sequence of calls acts on the stack and the current context together.
\<close>

definition frames :: "IRGenDebugInfo \<Rightarrow> (FullLocation \<times> SILDebugScope option) list" where
  "frames di = LocationStack di @ [(LastLoc di, LastScope di)]"

definition set_frames ::
  "IRGenDebugInfo \<Rightarrow> (FullLocation \<times> SILDebugScope option) list \<Rightarrow> IRGenDebugInfo" where
  "set_frames di fs =
     di\<lparr>LocationStack := butlast fs, LastLoc := fst (last fs), LastScope := snd (last fs)\<rparr>"

section \<open>Argument numbering\<close>

text \<open>
  Modelled from the spec: \<open>getArgNo\<close> is declared in the header
  (\<open>unsigned getArgNo(SILFunction *Fn, SILArgument *Arg)\<close>, with the members \<open>LastFn\<close>,
  \<open>LastArg\<close>, \<open>LastEnd\<close>, \<open>LastArgNo\<close> "used by getArgNo"), but its body is not among
  the sources. Section 4.4 of the specification describes it as "memoizing the last
  function/iterator position scanned so repeated queries for successive arguments of
  the same function are amortized O(1) rather than O(n) per query (an explicit last
  queried cursor, reset whenever the function changes)"; section 8 gives the values it
  returns, "for a function with N arguments ... 0..N-1"; section 7 makes a query for an
  argument that the function does not have a fatal error. The argument list of each
  function (the arguments of its first basic block) is the parameter \<open>bbargs\<close>.

  \<open>scan_args\<close> is the linear scan: it walks the argument list with the iterator and
  the number \<open>no\<close> in step and stops at the first occurrence of \<open>Arg\<close>, returning the
  iterator that stands there and its number.
\<close>

fun scan_args ::
  "SILArgument list \<Rightarrow> SILArgument \<Rightarrow> 32 word \<Rightarrow> (SILArgument list \<times> 32 word) option" where
  "scan_args [] Arg no = None"
| "scan_args (x # xs) Arg no =
     (if x = Arg then Some (x # xs, no) else scan_args xs Arg (no + 1))"

text \<open>
  Modelled from the spec: reading through the cursor of the absent \<open>getArgNo\<close>; the end
  iterator stands on no argument.
\<close>

definition deref :: "SILArgument list \<Rightarrow> SILArgument option" where
  "deref it = (case it of [] \<Rightarrow> None | x # xs \<Rightarrow> Some x)"

text \<open>
  Modelled from the spec: the query itself (see above). When the function is the one
  queried last, the cursor advances by one and is tried first; otherwise ("reset
  whenever the function changes"), or when the cursor does not stand on the argument,
  the cursor is reset by a scan from the first argument, which has the number 0.
\<close>

definition getArgNo ::
  "(SILFunction \<Rightarrow> SILArgument list) \<Rightarrow> SILFunction \<Rightarrow> SILArgument \<Rightarrow> IRGenDebugInfo
     \<Rightarrow> error + 32 word \<times> IRGenDebugInfo" where
  "getArgNo bbargs Fn Arg di =
     (let di1 = (if LastFn di = Some Fn
                 then di\<lparr>LastArg := tl (LastArg di), LastArgNo := LastArgNo di + 1\<rparr>
                 else di)
      in if LastFn di = Some Fn \<and> LastArg di1 \<noteq> LastEnd di1
            \<and> deref (LastArg di1) = Some Arg
         then Inr (LastArgNo di1, di1)
         else (case scan_args (bbargs Fn) Arg 0 of
                 None \<Rightarrow> Inl ArgumentNotInFunction
               | Some (it, no) \<Rightarrow>
                   Inr (no, di\<lparr>LastFn := Some Fn, LastArg := it,
                                LastEnd := [], LastArgNo := no\<rparr>)))"

text \<open>
  The memo is consistent when, for the function queried last, the cursor stands on one
  of its arguments and the number is the position of that argument in the function's
  list. An emitter that has answered no query yet (\<open>LastFn\<close> null) is consistent.
\<close>

definition memo_ok :: "(SILFunction \<Rightarrow> SILArgument list) \<Rightarrow> IRGenDebugInfo \<Rightarrow> bool" where
  "memo_ok bbargs di =
     (case LastFn di of
        None \<Rightarrow> True
      | Some f \<Rightarrow>
          LastEnd di = [] \<and> LastArg di \<noteq> []
          \<and> LastArg di = drop (length (bbargs f) - length (LastArg di)) (bbargs f)
          \<and> LastArgNo di = of_nat (length (bbargs f) - length (LastArg di)))"

text \<open>Querying a list of arguments of one function, one after the other.\<close>

fun query_all ::
  "(SILFunction \<Rightarrow> SILArgument list) \<Rightarrow> SILFunction \<Rightarrow> SILArgument list \<Rightarrow> IRGenDebugInfo
     \<Rightarrow> error + 32 word list \<times> IRGenDebugInfo" where
  "query_all bbargs Fn [] di = Inr ([], di)"
| "query_all bbargs Fn (Arg # Args) di =
     (case getArgNo bbargs Fn Arg di of
        Inl e \<Rightarrow> Inl e
      | Inr (n, di1) \<Rightarrow>
          (case query_all bbargs Fn Args di1 of
             Inl e \<Rightarrow> Inl e
           | Inr (ns, di2) \<Rightarrow> Inr (n # ns, di2)))"

section \<open>The type cache\<close>

text \<open>
  Modelled from the spec: \<open>getOrCreateType\<close> and \<open>createType\<close> are declared in the
  header and \<open>DITypeCache\<close> is a member, but the bodies are not among the sources. The
  definitions of this section follow sections 3, 4.2, 4.3, 5 and 9 of the
  specification. A type descriptor carries its identity (the key of the cache), its
  kind, its size and alignment in bits, and its children; a child that refers back to
  an enclosing type carries that type's identity.
\<close>

datatype TypeKind = Scalar | Struct | Enum | Tuple | Function

datatype TypeDescriptor =
  TypeDescriptor (identity: nat) (kind: TypeKind) (sizeInBits: nat) (alignInBits: nat)
    (children: "TypeDescriptor list")

text \<open>
  Modelled from the spec: the metadata sink. A node is a forward declaration ("declares
  kind + name + size/alignment but no members") or a type node with the handles of its
  members. The sink hands out handles in order; the cache maps a type identity to a
  handle.
\<close>

datatype MetadataNode =
  ForwardDecl TypeKind nat nat
| TypeNode TypeKind nat nat "nat list"

record MetadataSink =
  nodes :: "nat \<Rightarrow> MetadataNode option"
  next_node :: nat
  DITypeCache :: "nat \<Rightarrow> nat option"

text \<open>
  Modelled from the spec: the sink's node creation (\<open>createType\<close> of section 6); the
  new node gets the next free handle.
\<close>

definition createNode :: "MetadataNode \<Rightarrow> MetadataSink \<Rightarrow> nat \<times> MetadataSink" where
  "createNode n st =
     (next_node st,
      st\<lparr>nodes := (nodes st)(next_node st \<mapsto> n), next_node := Suc (next_node st)\<rparr>)"

text \<open>
  Modelled from the spec: reconciliation. The placeholder \<open>old\<close> is replaced by the
  completed node \<open>new\<close>: the placeholder is gone, and "any node that already referenced
  the forward declaration as a child must see the completed node transparently", as
  must every handle held by the cache.
\<close>

definition redirect :: "nat \<Rightarrow> nat \<Rightarrow> nat \<Rightarrow> nat" where
  "redirect old new h = (if h = old then new else h)"

fun redirect_members :: "nat \<Rightarrow> nat \<Rightarrow> MetadataNode \<Rightarrow> MetadataNode" where
  "redirect_members old new (ForwardDecl k sz al) = ForwardDecl k sz al"
| "redirect_members old new (TypeNode k sz al ms) = TypeNode k sz al (map (redirect old new) ms)"

definition replaceAllUsesWith :: "nat \<Rightarrow> nat \<Rightarrow> MetadataSink \<Rightarrow> MetadataSink" where
  "replaceAllUsesWith old new st =
     st\<lparr>nodes := (\<lambda>h. if h = old then None
                        else map_option (redirect_members old new) (nodes st h)),
        DITypeCache := (\<lambda>k. map_option (redirect old new) (DITypeCache st k))\<rparr>"

text \<open>
  Modelled from the spec: the kinds that step 3 of section 4.3 treats as composite, "for
  composite kinds (struct, enum, tuple)"; scalars and function types are not.
\<close>

fun is_composite :: "TypeKind \<Rightarrow> bool" where
  "is_composite Struct = True"
| "is_composite Enum = True"
| "is_composite Tuple = True"
| "is_composite Scalar = False"
| "is_composite Function = False"

text \<open>
  Modelled from the spec: the cache lookup of section 4.2, a hit only "if present and
  still valid", that is, when the handle still names a node of the sink.
\<close>

definition lookup_valid :: "MetadataSink \<Rightarrow> nat \<Rightarrow> nat option" where
  "lookup_valid st ident =
     (case DITypeCache st ident of
        None \<Rightarrow> None
      | Some h \<Rightarrow> (case nodes st h of None \<Rightarrow> None | Some n \<Rightarrow> Some h))"

text \<open>
  Modelled from the spec: the algorithm of section 4.3. (1) the identity is the key;
  (2) on a hit the cached node is returned at once; (3) on a miss a composite type first
  registers a forward declaration under its identity; (4) its members are built
  recursively; (5) the completed node replaces the forward declaration. "Scalar/
  function-pointer types skip steps 3-5 and are built directly from their descriptor."
\<close>

fun getOrCreateType :: "TypeDescriptor \<Rightarrow> nat \<Rightarrow> MetadataSink \<Rightarrow> nat \<times> MetadataSink"
  and createMembers :: "TypeDescriptor list \<Rightarrow> nat \<Rightarrow> MetadataSink \<Rightarrow> nat list \<times> MetadataSink"
where
  "getOrCreateType (TypeDescriptor ident k sz al ch) Scope st =
     (case lookup_valid st ident of
        Some h \<Rightarrow> (h, st)
      | None \<Rightarrow>
          if is_composite k
          then (case createNode (ForwardDecl k sz al) st of (fwd, st1) \<Rightarrow>
                 (case createMembers ch Scope
                         (st1\<lparr>DITypeCache := (DITypeCache st1)(ident \<mapsto> fwd)\<rparr>) of
                    (ms, st2) \<Rightarrow>
                      (case createNode (TypeNode k sz al ms) st2 of (c, st3) \<Rightarrow>
                         (let st4 = replaceAllUsesWith fwd c st3
                          in (c, st4\<lparr>DITypeCache := (DITypeCache st4)(ident \<mapsto> c)\<rparr>)))))
          else (case createNode (TypeNode k sz al []) st of (n, st1) \<Rightarrow>
                  (n, st1\<lparr>DITypeCache := (DITypeCache st1)(ident \<mapsto> n)\<rparr>)))"
| "createMembers [] Scope st = ([], st)"
| "createMembers (d # ds) Scope st =
     (case getOrCreateType d Scope st of (h, st1) \<Rightarrow>
        (case createMembers ds Scope st1 of (hs, st2) \<Rightarrow> (h # hs, st2)))"

section \<open>Declaration emitters\<close>

text \<open>
  \<^verbatim>\<open>
  void emitVariableDeclaration(IRBuilder& Builder,
                               llvm::Value *Storage,
                               DebugTypeInfo Ty,
                               StringRef Name,
                               unsigned Tag,
                               unsigned ArgNo = 0,
                               IndirectionKind = DirectValue,
                               ArtificialKind = RealValue,
                               IntrinsicKind = Declare);
  \<close>
  The body is defined out of line and is the parameter \<open>body\<close>. A call gives the five
  leading arguments and some prefix of the four trailing ones; the declaration's
  default arguments complete the prefix.
\<close>

datatype LLVMValue = LLVMValue nat

datatype TrailingArgs =
  Trailing0
| Trailing1 "32 word"
| Trailing2 "32 word" IndirectionKind
| Trailing3 "32 word" IndirectionKind ArtificialKind
| Trailing4 "32 word" IndirectionKind ArtificialKind IntrinsicKind

fun default_args ::
  "TrailingArgs \<Rightarrow> 32 word \<times> IndirectionKind \<times> ArtificialKind \<times> IntrinsicKind" where
  "default_args Trailing0 = (0, DirectValue, RealValue, Declare)"
| "default_args (Trailing1 ArgNo) = (ArgNo, DirectValue, RealValue, Declare)"
| "default_args (Trailing2 ArgNo Ind) = (ArgNo, Ind, RealValue, Declare)"
| "default_args (Trailing3 ArgNo Ind Art) = (ArgNo, Ind, Art, Declare)"
| "default_args (Trailing4 ArgNo Ind Art Intr) = (ArgNo, Ind, Art, Intr)"

definition emitVariableDeclaration ::
  "(IRBuilder \<Rightarrow> LLVMValue option \<Rightarrow> 'ty \<Rightarrow> string \<Rightarrow> 32 word \<Rightarrow> 32 word \<Rightarrow> IndirectionKind
      \<Rightarrow> ArtificialKind \<Rightarrow> IntrinsicKind \<Rightarrow> IRGenDebugInfo \<Rightarrow> IRGenDebugInfo \<times> IRBuilder)
   \<Rightarrow> IRBuilder \<Rightarrow> LLVMValue option \<Rightarrow> 'ty \<Rightarrow> string \<Rightarrow> 32 word \<Rightarrow> TrailingArgs
   \<Rightarrow> IRGenDebugInfo \<Rightarrow> IRGenDebugInfo \<times> IRBuilder" where
  "emitVariableDeclaration body Builder Storage Ty Name Tag trailing di =
     (case default_args trailing of
        (ArgNo, Ind, Art, Intr) \<Rightarrow> body Builder Storage Ty Name Tag ArgNo Ind Art Intr di)"

text \<open>
  \<^verbatim>\<open>
  inline void emitArtificialFunction(IRGenFunction &IGF, llvm::Function *Fn,
                                     SILType SILTy = SILType()) {
    emitArtificialFunction(*IGF.IGM.SILMod, IGF.Builder, Fn, SILTy);
  }
  void emitArtificialFunction(SILModule &SILMod, IRBuilder &Builder,
                              llvm::Function *Fn, SILType SILTy = SILType());
  \<close>
  The second overload is defined out of line and is the parameter \<open>body\<close>; it updates
  the emitter and the builder it is given. Both overloads default \<open>SILTy\<close> to the
  null type \<open>SILType()\<close>; an omitted argument is \<open>None\<close>. Of \<open>IRGenFunction\<close> and
  \<open>IRGenModule\<close> the inline overload reads \<open>IGF.IGM\<close>, \<open>IGF.Builder\<close> and the pointer
  \<open>IGM.SILMod\<close>, which it dereferences.
\<close>

datatype SILModule = SILModule nat
datatype LLVMFunction = LLVMFunction nat
datatype SILType = SILType "nat option"

definition SILType_null :: SILType where
  "SILType_null = SILType None"

definition emitArtificialFunction ::
  "(SILModule \<Rightarrow> IRBuilder \<Rightarrow> LLVMFunction option \<Rightarrow> SILType \<Rightarrow> IRGenDebugInfo
      \<Rightarrow> IRGenDebugInfo \<times> IRBuilder)
   \<Rightarrow> SILModule \<Rightarrow> IRBuilder \<Rightarrow> LLVMFunction option \<Rightarrow> SILType option \<Rightarrow> IRGenDebugInfo
   \<Rightarrow> IRGenDebugInfo \<times> IRBuilder" where
  "emitArtificialFunction body SILMod Builder Fn SILTy di =
     body SILMod Builder Fn (case SILTy of None \<Rightarrow> SILType_null | Some ty \<Rightarrow> ty) di"

record IRGenModule =
  SILMod :: "SILModule option"

record IRGenFunction =
  IGM :: IRGenModule
  Builder :: IRBuilder

definition emitArtificialFunction_IGF ::
  "(SILModule \<Rightarrow> IRBuilder \<Rightarrow> LLVMFunction option \<Rightarrow> SILType \<Rightarrow> IRGenDebugInfo
      \<Rightarrow> IRGenDebugInfo \<times> IRBuilder)
   \<Rightarrow> IRGenFunction \<Rightarrow> LLVMFunction option \<Rightarrow> SILType option \<Rightarrow> IRGenDebugInfo
   \<Rightarrow> error + IRGenDebugInfo \<times> IRGenFunction" where
  "emitArtificialFunction_IGF body IGF Fn SILTy di =
     (let ty = (case SILTy of None \<Rightarrow> SILType_null | Some ty \<Rightarrow> ty)
      in case SILMod (IGM IGF) of
           None \<Rightarrow> Inl NullSILModule
         | Some m \<Rightarrow>
             (case emitArtificialFunction body m (Builder IGF) Fn (Some ty) di of
                (di', B') \<Rightarrow> Inr (di', IGF\<lparr>Builder := B'\<rparr>)))"

section \<open>Concrete states\<close>

text \<open>Small concrete inputs on which the definitions are run.\<close>

definition loc_a :: FullLocation where
  "loc_a = \<lparr>LocForLinetable = \<lparr>Line = 7, Col = 3, Filename = Some ''a.swift''\<rparr>,
            Loc = \<lparr>Line = 7, Col = 3, Filename = Some ''a.swift''\<rparr>\<rparr>"

definition di_a :: IRGenDebugInfo where
  "di_a = \<lparr>LastFn = None, LastArg = [], LastEnd = [], LastArgNo = 0,
           LastLoc = loc_a, LastScope = Some (SILDebugScope 1), LocationStack = []\<rparr>"

definition builder_a :: IRBuilder where
  "builder_a = \<lparr>CurrentDebugLocation = \<lparr>DL_Line = 7, DL_Col = 3, DL_Scope = Some (MDNode 5)\<rparr>\<rparr>"

definition store_a :: store where
  "store_a = (\<lambda>_. di_a)"

definition store_b :: store where
  "store_b = (\<lambda>_. di_a\<lparr>LocationStack := [(loc_a, Some (SILDebugScope 1))],
                           LastLoc := FullLocation_zero, LastScope := None\<rparr>)"

definition bbargs_a :: "SILFunction \<Rightarrow> SILArgument list" where
  "bbargs_a f = (if f = SILFunction 0 then [SILArgument 10, SILArgument 11, SILArgument 12]
                 else [SILArgument 20, SILArgument 21])"

definition di_b :: IRGenDebugInfo where
  "di_b = di_a\<lparr>LastFn := Some (SILFunction 1), LastArg := [SILArgument 21], LastEnd := [],
               LastArgNo := 1\<rparr>"

definition sink_empty :: MetadataSink where
  "sink_empty = \<lparr>nodes = (\<lambda>_. None), next_node = 0, DITypeCache = (\<lambda>_. None)\<rparr>"

text \<open>
  A struct of identity 1 with a scalar member and a member that refers back to the
  struct, and a second descriptor of the same identity.
\<close>

definition list_node :: TypeDescriptor where
  "list_node = TypeDescriptor 1 Struct 128 64
     [TypeDescriptor 2 Scalar 64 64 [], TypeDescriptor 1 Struct 128 64 []]"

definition list_node_again :: TypeDescriptor where
  "list_node_again = TypeDescriptor 1 Struct 128 64 []"

text \<open>An out-of-line body to run the inline overload with: it clears the location.\<close>

definition body_a ::
  "SILModule \<Rightarrow> IRBuilder \<Rightarrow> LLVMFunction option \<Rightarrow> SILType \<Rightarrow> IRGenDebugInfo
     \<Rightarrow> IRGenDebugInfo \<times> IRBuilder" where
  "body_a m b Fn ty di = clearLoc di b"

definition igf_a :: IRGenFunction where
  "igf_a = \<lparr>IGM = \<lparr>SILMod = Some (SILModule 3)\<rparr>, Builder = builder_a\<rparr>"

section \<open>Properties of the location tracker\<close>

text \<open>
  Claim C6. From every state of the emitter and of the builder, \<open>clearLoc\<close> leaves the
  last location empty (both of its locations have line 0, column 0 and no file name),
  the last scope null, and the builder's current debug location the empty one.
\<close>

theorem clearLoc_resets_context:
  "LastLoc (fst (clearLoc di B)) = FullLocation_zero
   \<and> LastLoc (fst (clearLoc di B)) =
       \<lparr>LocForLinetable = \<lparr>Line = 0, Col = 0, Filename = None\<rparr>,
        Loc = \<lparr>Line = 0, Col = 0, Filename = None\<rparr>\<rparr>
   \<and> LastScope (fst (clearLoc di B)) = None
   \<and> getCurrentDebugLocation (snd (clearLoc di B)) = DebugLoc_empty
   \<and> DebugLoc_empty = \<lparr>DL_Line = 0, DL_Col = 0, DL_Scope = None\<rparr>"
  by (simp add: clearLoc_def Let_def SetCurrentDebugLocation_def getCurrentDebugLocation_def
      FullLocation_zero_def Location_zero_def DebugLoc_empty_def)

text \<open>
  Claim C9. \<open>clearLoc\<close> leaves the location stack as it was, whatever it holds. The
  emitter after the call is the emitter before it with only the last location and the
  last scope overwritten, and the builder after the call is the builder before it with
  only its current debug location overwritten.
\<close>

theorem clearLoc_frame:
  "LocationStack (fst (clearLoc di B)) = LocationStack di
   \<and> fst (clearLoc di B) = di\<lparr>LastLoc := FullLocation_zero, LastScope := None\<rparr>
   \<and> snd (clearLoc di B) = B\<lparr>CurrentDebugLocation := DebugLoc_empty\<rparr>"
  by (simp add: clearLoc_def Let_def SetCurrentDebugLocation_def)

section \<open>Push, pop and the RAII object\<close>

lemma set_frames_frames: "set_frames di (frames di) = di"
  by (simp add: set_frames_def frames_def)

lemma pushArtificialLocation_eq:
  "pushArtificialLocation a (B, s) =
     (B\<lparr>CurrentDebugLocation :=
          \<lparr>DL_Line = 0, DL_Col = 0, DL_Scope = DL_Scope (CurrentDebugLocation B)\<rparr>\<rparr>,
      s(a := (s a)\<lparr>LocationStack := LocationStack (s a) @ [(LastLoc (s a), LastScope (s a))],
                  LastLoc := FullLocation_zero, LastScope := None\<rparr>))"
  by (simp add: pushArtificialLocation_def ArtificialLocation_ctor_def Let_def pushLoc_def
      SetCurrentDebugLocation_def DebugLoc_get_def getScope_def getCurrentDebugLocation_def)

lemma popLocation_empty:
  "LocationStack (s a) = [] \<Longrightarrow> popLocation a (B, s) = Inl PopEmptyLocationStack"
  by (simp add: popLocation_def ArtificialLocation_dtor_def popLoc_def pop_back_val_def)

lemma popLocation_top:
  "LocationStack (s a) = stk @ [(loc, sc)] \<Longrightarrow>
   popLocation a (B, s) =
     Inr (B, s(a := (s a)\<lparr>LocationStack := stk, LastLoc := loc, LastScope := sc\<rparr>))"
  by (simp add: popLocation_def ArtificialLocation_dtor_def popLoc_def pop_back_val_def)

text \<open>On frames, a push appends the empty context and a pop drops the last frame.\<close>

lemma push_set_frames:
  "fs \<noteq> [] \<Longrightarrow>
   \<exists>B'. pushArtificialLocation a (B, s(a := set_frames di fs)) =
          (B', s(a := set_frames di (fs @ [(FullLocation_zero, None)])))"
  by (simp add: pushArtificialLocation_eq set_frames_def butlast_append)

lemma pop_set_frames:
  assumes ne: "fs \<noteq> []"
  shows "popLocation a (B, s(a := set_frames di (fs @ [x]))) = Inr (B, s(a := set_frames di fs))"
proof -
  obtain loc sc where l: "last fs = (loc, sc)" by (cases "last fs")
  with ne have fs: "fs = butlast fs @ [(loc, sc)]" by (metis append_butlast_last_id)
  have "LocationStack ((s(a := set_frames di (fs @ [x]))) a) = butlast fs @ [(loc, sc)]"
    using fs by (simp add: set_frames_def)
  from popLocation_top [of "s(a := set_frames di (fs @ [x]))" a "butlast fs" loc sc B, OF this]
  show ?thesis using l by (simp add: set_frames_def)
qed

text \<open>
  A sequence whose pops are all matched never fails: by induction on the sequence, for
  any number \<open>d\<close> of open pushes below the number of frames.
\<close>

lemma run_pops_matched:
  "pops_matched cs d \<Longrightarrow> d < length fs \<Longrightarrow> \<exists>r. run a cs (B, s(a := set_frames di fs)) = Inr r"
proof (induction cs arbitrary: d fs B)
  case Nil
  then show ?case by simp
next
  case (Cons c cs)
  show ?case
  proof (cases c)
    case PushArtificialLocation
    with Cons.prems have m: "pops_matched cs (Suc d)" by simp
    from Cons.prems(2) have "fs \<noteq> []" by auto
    from push_set_frames [OF this, of a B s di] obtain B' where
      p: "pushArtificialLocation a (B, s(a := set_frames di fs)) =
          (B', s(a := set_frames di (fs @ [(FullLocation_zero, None)])))" ..
    have "Suc d < length (fs @ [(FullLocation_zero, None)])" using Cons.prems(2) by simp
    from Cons.IH [OF m this, of B'] obtain r where
      "run a cs (B', s(a := set_frames di (fs @ [(FullLocation_zero, None)]))) = Inr r" ..
    moreover have "run a (c # cs) (B, s(a := set_frames di fs)) =
      run a cs (B', s(a := set_frames di (fs @ [(FullLocation_zero, None)])))"
      by (simp only: PushArtificialLocation run.simps p)
    ultimately show ?thesis by (simp only:) blast
  next
    case PopLocation
    with Cons.prems have d: "0 < d" and m: "pops_matched cs (d - 1)" by simp_all
    from d Cons.prems(2) have "fs \<noteq> []" by auto
    then obtain fs' x where fs: "fs = fs' @ [x]" by (metis rev_exhaust)
    with d Cons.prems(2) have ne: "fs' \<noteq> []" and lt: "d - 1 < length fs'" by auto
    from Cons.IH [OF m lt, of B] obtain r where
      "run a cs (B, s(a := set_frames di fs')) = Inr r" ..
    moreover have "run a (c # cs) (B, s(a := set_frames di fs)) =
      run a cs (B, s(a := set_frames di fs'))"
      by (simp only: PopLocation run.simps fs pop_set_frames [OF ne] sum.case)
    ultimately show ?thesis by (simp only:) blast
  qed
qed

lemma run_pops_matched0:
  assumes "pops_matched cs 0"
  shows "\<exists>r. run a cs (B, s) = Inr r"
proof -
  have "0 < length (frames (s a))" by (simp add: frames_def)
  from run_pops_matched [OF assms this, of a B s "s a"]
  show ?thesis by (simp add: set_frames_frames)
qed

text \<open>
  A balanced sequence run with \<open>d\<close> pushes open removes exactly the \<open>d\<close> last frames and
  touches nothing below them.
\<close>

lemma run_balanced_frames:
  "balanced cs d \<Longrightarrow> length post = d \<Longrightarrow> pre \<noteq> [] \<Longrightarrow>
   \<exists>B'. run a cs (B, s(a := set_frames di (pre @ post))) = Inr (B', s(a := set_frames di pre))"
proof (induction cs arbitrary: d post B)
  case Nil
  then show ?case by simp
next
  case (Cons c cs)
  show ?case
  proof (cases c)
    case PushArtificialLocation
    with Cons.prems have m: "balanced cs (Suc d)" by simp
    from Cons.prems(3) have "pre @ post \<noteq> []" by simp
    from push_set_frames [OF this, of a B s di] obtain B' where
      p: "pushArtificialLocation a (B, s(a := set_frames di (pre @ post))) =
          (B', s(a := set_frames di (pre @ post @ [(FullLocation_zero, None)])))" by auto
    have "length (post @ [(FullLocation_zero, None)]) = Suc d" using Cons.prems(2) by simp
    from Cons.IH [OF m this Cons.prems(3), of B'] obtain B'' where
      "run a cs (B', s(a := set_frames di (pre @ post @ [(FullLocation_zero, None)]))) =
       Inr (B'', s(a := set_frames di pre))" ..
    moreover have "run a (c # cs) (B, s(a := set_frames di (pre @ post))) =
      run a cs (B', s(a := set_frames di (pre @ post @ [(FullLocation_zero, None)])))"
      by (simp only: PushArtificialLocation run.simps p)
    ultimately show ?thesis by (simp only:) blast
  next
    case PopLocation
    with Cons.prems have d: "0 < d" and m: "balanced cs (d - 1)" by simp_all
    from d Cons.prems(2) have "post \<noteq> []" by auto
    then obtain post' x where post: "post = post' @ [x]" by (metis rev_exhaust)
    with Cons.prems(2) have len: "length post' = d - 1" by simp
    from Cons.prems(3) have ne: "pre @ post' \<noteq> []" by simp
    from Cons.IH [OF m len Cons.prems(3), of B] obtain B'' where
      "run a cs (B, s(a := set_frames di (pre @ post'))) = Inr (B'', s(a := set_frames di pre))" ..
    moreover have "run a (c # cs) (B, s(a := set_frames di (pre @ post))) =
      run a cs (B, s(a := set_frames di (pre @ post')))"
      using pop_set_frames [OF ne, of a B s di x]
      by (simp only: PopLocation run.simps post append_assoc sum.case)
    ultimately show ?thesis by (simp only:) blast
  qed
qed

lemma run_balanced:
  assumes "balanced cs 0"
  shows "\<exists>B'. run a cs (B, s) = Inr (B', s)"
proof -
  have "frames (s a) \<noteq> []" by (simp add: frames_def)
  from run_balanced_frames [OF assms, of "[]" "frames (s a)" a B s "s a"] this
  show ?thesis by (simp add: set_frames_frames)
qed

text \<open>
  Claim C1, as amended. \<open>pushArtificialLocation\<close> appends the emitter's current context
  (last location, last scope) to the location stack; the emitter's context then is the
  empty one, whose locations have line 0 and column 0 and whose scope is null. It is the
  builder's current debug location that becomes line 0, column 0 in the scope that the
  builder's debug location had before the call.
\<close>

theorem pushArtificialLocation_effect:
  "LocationStack (snd (pushArtificialLocation a (B, s)) a) =
     LocationStack (s a) @ [EmissionContext (s a)]
   \<and> EmissionContext (snd (pushArtificialLocation a (B, s)) a) = (FullLocation_zero, None)
   \<and> Line (Loc FullLocation_zero) = 0 \<and> Col (Loc FullLocation_zero) = 0
   \<and> Line (LocForLinetable FullLocation_zero) = 0
   \<and> Col (LocForLinetable FullLocation_zero) = 0
   \<and> getCurrentDebugLocation (fst (pushArtificialLocation a (B, s))) =
       \<lparr>DL_Line = 0, DL_Col = 0, DL_Scope = getScope (getCurrentDebugLocation B)\<rparr>"
  by (simp add: pushArtificialLocation_eq EmissionContext_def FullLocation_zero_def
      Location_zero_def getCurrentDebugLocation_def getScope_def)

text \<open>
  Claim C1 as stated fails: an emitter whose last scope is the scope at address 1 has a
  null last scope after \<open>pushArtificialLocation\<close>, so the scope of its context is not
  preserved.
\<close>

theorem pushArtificialLocation_scope_counterexample:
  "LastScope (store_a 0) = Some (SILDebugScope 1)
   \<and> LastScope (snd (pushArtificialLocation 0 (builder_a, store_a)) 0) = None"
  by (simp add: pushArtificialLocation_eq store_a_def di_a_def)

text \<open>
  Claim C2. A balanced sequence of \<open>pushArtificialLocation\<close>/\<open>popLocation\<close> calls of
  nesting depth at most 100 runs without error and leaves the emitter as it found it:
  the emission context (last location, last scope) after the final pop is the one
  before the first push, and so is the location stack. (The bound on the depth is the
  claim's; \<open>run_balanced\<close> holds at every depth.)
\<close>

theorem push_pop_round_trip:
  assumes "balanced cs 0" and "max_depth cs 0 \<le> 100"
  shows "\<exists>r. run a cs (B, s) = Inr r
           \<and> EmissionContext (snd r a) = EmissionContext (s a)
           \<and> LocationStack (snd r a) = LocationStack (s a)
           \<and> snd r = s"
  using run_balanced [OF assms(1), of a B s] by auto

theorem push_pop_round_trip_witness:
  "balanced [PushArtificialLocation, PushArtificialLocation, PopLocation,
             PushArtificialLocation, PopLocation, PopLocation] 0
   \<and> max_depth [PushArtificialLocation, PushArtificialLocation, PopLocation,
                PushArtificialLocation, PopLocation, PopLocation] 0 \<le> 100
   \<and> (\<exists>r. run 0 [PushArtificialLocation, PushArtificialLocation, PopLocation,
                  PushArtificialLocation, PopLocation, PopLocation] (builder_a, store_a) = Inr r
           \<and> EmissionContext (snd r 0) = EmissionContext (store_a 0)
           \<and> LocationStack (snd r 0) = LocationStack (store_a 0)
           \<and> snd r = store_a)"
  using push_pop_round_trip [of "[PushArtificialLocation, PushArtificialLocation, PopLocation,
             PushArtificialLocation, PopLocation, PopLocation]" 0 builder_a store_a]
  by simp

text \<open>
  Claim C4. \<open>popLocation\<close> on an empty location stack is the fatal error; a sequence of
  calls in which every pop is preceded by a matching push never reaches that error,
  whatever the state it starts from; and on a non-empty stack \<open>popLocation\<close> takes the
  last location and the last scope from the top of the stack, which it removes.
\<close>

theorem popLocation_contract:
  "(LocationStack (s a) = [] \<longrightarrow> popLocation a (B, s) = Inl PopEmptyLocationStack)
   \<and> (pops_matched cs 0 \<longrightarrow> (\<exists>r. run a cs (B, s) = Inr r))
   \<and> (LocationStack (s a) = stk @ [(loc, sc)] \<longrightarrow>
        popLocation a (B, s) =
          Inr (B, s(a := (s a)\<lparr>LocationStack := stk, LastLoc := loc, LastScope := sc\<rparr>)))"
  using popLocation_empty [of s a B] run_pops_matched0 [of cs a B s]
    popLocation_top [of s a stk loc sc B]
  by blast

theorem popLocation_contract_witness:
  "LocationStack (store_a 0) = []
   \<and> popLocation 0 (builder_a, store_a) = Inl PopEmptyLocationStack
   \<and> pops_matched [PushArtificialLocation, PopLocation, PushArtificialLocation] 0
   \<and> (\<exists>r. run 0 [PushArtificialLocation, PopLocation, PushArtificialLocation]
              (builder_a, store_a) = Inr r)
   \<and> LocationStack (store_b 0) = [] @ [(loc_a, Some (SILDebugScope 1))]
   \<and> popLocation 0 (builder_a, store_b) =
       Inr (builder_a, store_b(0 := (store_b 0)\<lparr>LocationStack := [], LastLoc := loc_a,
                                                LastScope := Some (SILDebugScope 1)\<rparr>))"
proof -
  have e: "LocationStack (store_a 0) = []" by (simp add: store_a_def di_a_def)
  have m: "pops_matched [PushArtificialLocation, PopLocation, PushArtificialLocation] 0"
    by simp
  have t: "LocationStack (store_b 0) = [] @ [(loc_a, Some (SILDebugScope 1))]"
    by (simp add: store_b_def)
  from e m t
    popLocation_contract [of store_a 0 builder_a
      "[PushArtificialLocation, PopLocation, PushArtificialLocation]" "[]" loc_a
      "Some (SILDebugScope 1)"]
    popLocation_contract [of store_b 0 builder_a "[]" "[]" loc_a "Some (SILDebugScope 1)"]
  show ?thesis by blast
qed

text \<open>
  Claim C8. An \<open>ArtificialLocation\<close> constructed with a null \<open>DI\<close> does nothing: the
  constructor returns the builder and every emitter of the store as they were, and the
  destructor of that object returns the store as it was, without error.
\<close>

theorem ArtificialLocation_null_noop:
  "ArtificialLocation_ctor None B s = (\<lparr>DI = None\<rparr>, B, s)
   \<and> ArtificialLocation_dtor (fst (ArtificialLocation_ctor None B s)) s = Inr s"
  by (simp add: ArtificialLocation_ctor_def ArtificialLocation_dtor_def Let_def)


section \<open>Argument numbering\<close>

text \<open>
  The scan finds the argument at position \<open>i\<close> of a duplicate-free list at \<open>i\<close>: the
  iterator stands there and the number has advanced by \<open>i\<close>.
\<close>

lemma scan_args_nth:
  "distinct xs \<Longrightarrow> i < length xs \<Longrightarrow> scan_args xs (xs ! i) no = Some (drop i xs, no + of_nat i)"
proof (induction xs arbitrary: i no)
  case Nil
  then show ?case by simp
next
  case (Cons x xs)
  show ?case
  proof (cases i)
    case 0
    then show ?thesis by simp
  next
    case (Suc k)
    with Cons.prems have k: "k < length xs" and d: "distinct xs" and nx: "xs ! k \<noteq> x"
      by auto
    from Cons.IH [OF d k, of "no + 1"] nx Suc show ?thesis by (auto simp: add.assoc)
  qed
qed

lemma scan_args_Some:
  "scan_args xs Arg no = Some (it, n) \<Longrightarrow> \<exists>k<length xs. it = drop k xs \<and> n = no + of_nat k"
proof (induction xs arbitrary: no)
  case Nil
  then show ?case by simp
next
  case (Cons x xs)
  show ?case
  proof (cases "x = Arg")
    case True
    with Cons.prems have "0 < length (x # xs) \<and> it = drop 0 (x # xs) \<and> n = no + of_nat 0"
      by auto
    then show ?thesis by blast
  next
    case False
    with Cons.prems have "scan_args xs Arg (no + 1) = Some (it, n)" by simp
    from Cons.IH [OF this] obtain k where
      "k < length xs" "it = drop k xs" "n = no + 1 + of_nat k" by blast
    then have "Suc k < length (x # xs) \<and> it = drop (Suc k) (x # xs) \<and> n = no + of_nat (Suc k)"
      by (simp add: add.assoc)
    then show ?thesis by blast
  qed
qed

text \<open>What a consistent memo says about the cursor after one more step.\<close>

lemma memo_ok_step:
  assumes ok: "memo_ok bbargs di" and fn: "LastFn di = Some Fn"
    and ne: "tl (LastArg di) \<noteq> []"
  defines "p \<equiv> length (bbargs Fn) - length (LastArg di)"
  shows "Suc p < length (bbargs Fn)" and "tl (LastArg di) = drop (Suc p) (bbargs Fn)"
    and "LastArgNo di + 1 = of_nat (Suc p)" and "LastEnd di = []"
proof -
  from ok fn have e: "LastEnd di = []" and l: "LastArg di = drop p (bbargs Fn)"
    and n: "LastArgNo di = of_nat p"
    by (simp_all add: memo_ok_def p_def)
  from l have t: "tl (LastArg di) = drop (Suc p) (bbargs Fn)"
    by (metis drop_Suc tl_drop)
  with ne show "Suc p < length (bbargs Fn)" by (cases "Suc p < length (bbargs Fn)") auto
  from t show "tl (LastArg di) = drop (Suc p) (bbargs Fn)" .
  from n show "LastArgNo di + 1 = of_nat (Suc p)" by simp
  from e show "LastEnd di = []" .
qed

text \<open>Every successful query leaves the memo consistent.\<close>

lemma getArgNo_memo_ok:
  assumes "memo_ok bbargs di" and "getArgNo bbargs Fn Arg di = Inr (n, di')"
  shows "memo_ok bbargs di'"
proof (cases "LastFn di = Some Fn \<and> tl (LastArg di) \<noteq> LastEnd di
            \<and> deref (tl (LastArg di)) = Some Arg")
  case True
  with assms(2) have di': "di' = di\<lparr>LastArg := tl (LastArg di), LastArgNo := LastArgNo di + 1\<rparr>"
    by (auto simp add: getArgNo_def Let_def)
  from True have fn: "LastFn di = Some Fn" and ne: "tl (LastArg di) \<noteq> []"
    by (auto simp: deref_def)
  note s = memo_ok_step [OF assms(1) fn ne]
  from s(1,2) have "length (bbargs Fn) - length (tl (LastArg di))
      = Suc (length (bbargs Fn) - length (LastArg di))" by simp
  with s fn ne show ?thesis by (simp add: di' memo_ok_def)
next
  case False
  with assms(2) obtain it no where s: "scan_args (bbargs Fn) Arg 0 = Some (it, no)"
    and di': "di' = di\<lparr>LastFn := Some Fn, LastArg := it, LastEnd := [], LastArgNo := no\<rparr>"
    by (auto simp: getArgNo_def Let_def split: option.splits if_splits)
  from scan_args_Some [OF s] obtain k where
    k: "k < length (bbargs Fn)" "it = drop k (bbargs Fn)" "no = of_nat k" by auto
  then have "length (bbargs Fn) - length it = k" by simp
  with k show ?thesis by (simp add: di' memo_ok_def)
qed

text \<open>With a consistent memo, the argument at position \<open>i\<close> has the number \<open>i\<close>.\<close>

lemma getArgNo_nth:
  assumes "distinct (bbargs Fn)" and "memo_ok bbargs di" and "i < length (bbargs Fn)"
  shows "\<exists>di'. getArgNo bbargs Fn (bbargs Fn ! i) di = Inr (of_nat i, di')"
proof (cases "LastFn di = Some Fn \<and> tl (LastArg di) \<noteq> LastEnd di
            \<and> deref (tl (LastArg di)) = Some (bbargs Fn ! i)")
  case True
  then have fn: "LastFn di = Some Fn" and ne: "tl (LastArg di) \<noteq> []"
    by (auto simp: deref_def)
  note s = memo_ok_step [OF assms(2) fn ne]
  let ?p = "length (bbargs Fn) - length (LastArg di)"
  from s(1,2) have "deref (tl (LastArg di)) = Some (bbargs Fn ! Suc ?p)"
    by (simp add: deref_def Cons_nth_drop_Suc [symmetric])
  with True have "bbargs Fn ! Suc ?p = bbargs Fn ! i" by simp
  with s(1) assms(1,3) have "Suc ?p = i" by (simp add: nth_eq_iff_index_eq)
  with s(3) have "LastArgNo di + 1 = of_nat i" by simp
  with True show ?thesis by (simp add: getArgNo_def Let_def)
next
  case False
  from scan_args_nth [OF assms(1,3), of 0]
  have "scan_args (bbargs Fn) (bbargs Fn ! i) 0 = Some (drop i (bbargs Fn), of_nat i)" by simp
  with False show ?thesis by (auto simp: getArgNo_def Let_def)
qed

text \<open>Querying the arguments from position \<open>k\<close> on, in order: by induction on how many are left.\<close>

lemma query_all_suffix:
  assumes "distinct (bbargs Fn)"
  shows "memo_ok bbargs di \<Longrightarrow> k \<le> length (bbargs Fn) \<Longrightarrow> m = length (bbargs Fn) - k \<Longrightarrow>
   \<exists>di'. query_all bbargs Fn (drop k (bbargs Fn)) di =
           Inr (map of_nat [k..<length (bbargs Fn)], di')"
proof (induction m arbitrary: k di)
  case 0
  then show ?case by simp
next
  case (Suc m)
  then have k: "k < length (bbargs Fn)" by simp
  from getArgNo_nth [OF assms Suc.prems(1) k] obtain di1 where
    g: "getArgNo bbargs Fn (bbargs Fn ! k) di = Inr (of_nat k, di1)" ..
  from getArgNo_memo_ok [OF Suc.prems(1) g] have ok: "memo_ok bbargs di1" .
  from Suc.prems k have "Suc k \<le> length (bbargs Fn)" "m = length (bbargs Fn) - Suc k"
    by simp_all
  from Suc.IH [OF ok this] obtain di2 where
    q: "query_all bbargs Fn (drop (Suc k) (bbargs Fn)) di1 =
          Inr (map of_nat [Suc k..<length (bbargs Fn)], di2)" ..
  have d: "drop k (bbargs Fn) = bbargs Fn ! k # drop (Suc k) (bbargs Fn)"
    using k by (simp add: Cons_nth_drop_Suc)
  have u: "[k..<length (bbargs Fn)] = k # [Suc k..<length (bbargs Fn)]"
    using k by (simp add: upt_conv_Cons)
  show ?case using g q by (simp add: d u)
qed

text \<open>Below \<open>2^32\<close> the numbers, read as naturals, are the positions themselves.\<close>

lemma unat_position:
  "i < n \<Longrightarrow> n \<le> 2 ^ 32 \<Longrightarrow> unat (of_nat i :: 32 word) = i"
  by (simp add: unat_of_nat)

lemma unat_positions:
  assumes n: "n \<le> 2 ^ 32"
  shows "map unat (map of_nat [0..<n] :: 32 word list) = [0..<n]"
proof -
  have "map (\<lambda>i. unat (of_nat i :: 32 word)) [0..<n] = map (\<lambda>i. i) [0..<n]"
    by (rule map_cong [OF refl]) (simp add: unat_position [OF _ n])
  then show ?thesis by (simp add: comp_def)
qed

text \<open>
  Claim C5. For a function whose \<open>N\<close> arguments are distinct objects (\<open>N\<close> within the
  range of \<open>unsigned\<close>) and an emitter whose memo is consistent: querying the arguments
  in increasing order returns 0, 1, ..., \<open>N - 1\<close>, each once; a query for the argument
  at position \<open>i\<close>, asked at any moment, returns \<open>i\<close>; and so does that query when it
  follows a successful query for any argument \<open>A\<close> of another function \<open>G\<close>, whatever
  that query left in the memo and even if the two functions were to share arguments.
\<close>

theorem getArgNo_numbering:
  assumes "distinct (bbargs Fn)" and "memo_ok bbargs di" and "length (bbargs Fn) \<le> 2 ^ 32"
  shows "(\<exists>ns di'. query_all bbargs Fn (bbargs Fn) di = Inr (ns, di')
                    \<and> map unat ns = [0..<length (bbargs Fn)])
   \<and> (i < length (bbargs Fn) \<longrightarrow>
        (\<exists>n di'. getArgNo bbargs Fn (bbargs Fn ! i) di = Inr (n, di') \<and> unat n = i))
   \<and> (i < length (bbargs Fn) \<and> G \<noteq> Fn \<and> getArgNo bbargs G A di = Inr (m, di1) \<longrightarrow>
        (\<exists>n di2. getArgNo bbargs Fn (bbargs Fn ! i) di1 = Inr (n, di2) \<and> unat n = i))"
proof (intro conjI impI)
  from query_all_suffix [OF assms(1) assms(2), of 0 "length (bbargs Fn)"] obtain di' where
    "query_all bbargs Fn (bbargs Fn) di = Inr (map of_nat [0..<length (bbargs Fn)], di')"
    by auto
  with unat_positions [OF assms(3)]
  show "\<exists>ns di'. query_all bbargs Fn (bbargs Fn) di = Inr (ns, di')
          \<and> map unat ns = [0..<length (bbargs Fn)]"
    by blast
next
  assume i: "i < length (bbargs Fn)"
  from getArgNo_nth [OF assms(1,2) i] obtain di' where
    "getArgNo bbargs Fn (bbargs Fn ! i) di = Inr (of_nat i, di')" ..
  moreover from i assms(3) have "unat (of_nat i :: 32 word) = i" by (rule unat_position)
  ultimately show "\<exists>n di'. getArgNo bbargs Fn (bbargs Fn ! i) di = Inr (n, di') \<and> unat n = i"
    by blast
next
  assume a: "i < length (bbargs Fn) \<and> G \<noteq> Fn \<and> getArgNo bbargs G A di = Inr (m, di1)"
  then have i: "i < length (bbargs Fn)" by simp
  from a have "memo_ok bbargs di1" using getArgNo_memo_ok [OF assms(2)] by blast
  from getArgNo_nth [OF assms(1) this i] obtain di2 where
    "getArgNo bbargs Fn (bbargs Fn ! i) di1 = Inr (of_nat i, di2)" ..
  moreover from i assms(3) have "unat (of_nat i :: 32 word) = i" by (rule unat_position)
  ultimately show "\<exists>n di2. getArgNo bbargs Fn (bbargs Fn ! i) di1 = Inr (n, di2) \<and> unat n = i"
    by blast
qed

theorem getArgNo_numbering_witness:
  "distinct (bbargs_a (SILFunction 0)) \<and> memo_ok bbargs_a di_a
   \<and> length (bbargs_a (SILFunction 0)) \<le> 2 ^ 32
   \<and> (\<exists>ns di'. query_all bbargs_a (SILFunction 0) (bbargs_a (SILFunction 0)) di_a = Inr (ns, di')
                 \<and> map unat ns = [0..<length (bbargs_a (SILFunction 0))])
   \<and> query_all bbargs_a (SILFunction 0) [SILArgument 10, SILArgument 11, SILArgument 12] di_a =
       Inr ([0, 1, 2], di_a\<lparr>LastFn := Some (SILFunction 0), LastArg := [SILArgument 12],
                             LastEnd := [], LastArgNo := 2\<rparr>)
   \<and> 2 < length (bbargs_a (SILFunction 0)) \<and> SILFunction 1 \<noteq> SILFunction 0
   \<and> getArgNo bbargs_a (SILFunction 1) (SILArgument 21) di_a = Inr (1, di_b)
   \<and> (\<exists>n di2. getArgNo bbargs_a (SILFunction 0) (bbargs_a (SILFunction 0) ! 2) di_b = Inr (n, di2)
                \<and> unat n = 2)
   \<and> getArgNo bbargs_a (SILFunction 0) (SILArgument 12) di_b =
       Inr (2, di_b\<lparr>LastFn := Some (SILFunction 0), LastArg := [SILArgument 12],
                     LastEnd := [], LastArgNo := 2\<rparr>)"
proof -
  have d: "distinct (bbargs_a (SILFunction 0))" by (simp add: bbargs_a_def)
  have m: "memo_ok bbargs_a di_a" by (simp add: memo_ok_def di_a_def)
  have b: "length (bbargs_a (SILFunction 0)) \<le> 2 ^ 32" by (simp add: bbargs_a_def)
  have l: "2 < length (bbargs_a (SILFunction 0))" by (simp add: bbargs_a_def)
  have f: "SILFunction 1 \<noteq> SILFunction 0" by simp
  have g: "getArgNo bbargs_a (SILFunction 1) (SILArgument 21) di_a = Inr (1, di_b)"
    by (simp add: getArgNo_def bbargs_a_def di_a_def di_b_def Let_def)
  have q: "query_all bbargs_a (SILFunction 0) [SILArgument 10, SILArgument 11, SILArgument 12] di_a =
       Inr ([0, 1, 2], di_a\<lparr>LastFn := Some (SILFunction 0), LastArg := [SILArgument 12],
                             LastEnd := [], LastArgNo := 2\<rparr>)"
    by (simp add: getArgNo_def bbargs_a_def di_a_def Let_def deref_def)
  have h: "getArgNo bbargs_a (SILFunction 0) (SILArgument 12) di_b =
       Inr (2, di_b\<lparr>LastFn := Some (SILFunction 0), LastArg := [SILArgument 12],
                     LastEnd := [], LastArgNo := 2\<rparr>)"
    by (simp add: getArgNo_def bbargs_a_def di_a_def di_b_def Let_def deref_def)
  note t = getArgNo_numbering [OF d m b, of 2 "SILFunction 1" "SILArgument 21" 1 di_b]
  from t have t1: "\<exists>ns di'. query_all bbargs_a (SILFunction 0) (bbargs_a (SILFunction 0)) di_a
      = Inr (ns, di') \<and> map unat ns = [0..<length (bbargs_a (SILFunction 0))]" by blast
  from t l f g have t3: "\<exists>n di2. getArgNo bbargs_a (SILFunction 0) (bbargs_a (SILFunction 0) ! 2) di_b
      = Inr (n, di2) \<and> unat n = 2" by blast
  from d m b t1 q l f g t3 h show ?thesis by blast
qed

section \<open>The type cache\<close>

text \<open>The sink never hands out a handle twice: its counter only grows.\<close>

lemma next_node_mono:
  "next_node st \<le> next_node (snd (getOrCreateType d Scope st))"
  "next_node st \<le> next_node (snd (createMembers ds Scope st))"
proof (induction d Scope st and ds Scope st rule: getOrCreateType_createMembers.induct)
  case (1 ident k sz al ch Scope st)
  show ?case
  proof (cases "lookup_valid st ident")
    case (Some h)
    then show ?thesis by simp
  next
    case None
    show ?thesis
    proof (cases "is_composite k")
      case True
      obtain fwd st1 where c1: "createNode (ForwardDecl k sz al) st = (fwd, st1)"
        by (cases "createNode (ForwardDecl k sz al) st")
      from "1.IH" [OF None True c1 [symmetric]]
      have "next_node (st1\<lparr>DITypeCache := (DITypeCache st1)(ident \<mapsto> fwd)\<rparr>)
            \<le> next_node (snd (createMembers ch Scope
                 (st1\<lparr>DITypeCache := (DITypeCache st1)(ident \<mapsto> fwd)\<rparr>)))" .
      moreover from c1 have "next_node st1 = Suc (next_node st)" by (auto simp: createNode_def)
      ultimately show ?thesis using None True c1
        by (auto simp: Let_def createNode_def replaceAllUsesWith_def split: prod.splits)
    next
      case False
      with None show ?thesis by (auto simp: createNode_def split: prod.splits)
    qed
  qed
next
  case (2 Scope st)
  then show ?case by simp
next
  case (3 d ds Scope st)
  obtain h st1 where g: "getOrCreateType d Scope st = (h, st1)"
    by (cases "getOrCreateType d Scope st")
  from "3.IH"(1) g have a: "next_node st \<le> next_node st1" by simp
  from "3.IH"(2) [OF g [symmetric]]
  have "next_node st1 \<le> next_node (snd (createMembers ds Scope st1))" .
  with a g show ?case by (auto split: prod.splits)
qed

text \<open>
  After \<open>getOrCreateType\<close> the cache holds the returned node, valid, under the
  descriptor's identity. For a composite type this needs the completed node to differ
  from the forward declaration it replaces.
\<close>

lemma getOrCreateType_cached:
  assumes g: "getOrCreateType d Scope st = (h, st')"
  shows "lookup_valid st' (identity d) = Some h"
proof (cases d)
  case (TypeDescriptor ident k sz al ch)
  show ?thesis
  proof (cases "lookup_valid st ident")
    case (Some h0)
    with g TypeDescriptor show ?thesis by simp
  next
    case None
    show ?thesis
    proof (cases "is_composite k")
      case True
      obtain fwd st1 where c1: "createNode (ForwardDecl k sz al) st = (fwd, st1)"
        by (cases "createNode (ForwardDecl k sz al) st")
      obtain ms st2 where c2:
        "createMembers ch Scope (st1\<lparr>DITypeCache := (DITypeCache st1)(ident \<mapsto> fwd)\<rparr>) = (ms, st2)"
        by (cases "createMembers ch Scope (st1\<lparr>DITypeCache := (DITypeCache st1)(ident \<mapsto> fwd)\<rparr>)")
      from c1 have f: "fwd = next_node st" "next_node st1 = Suc (next_node st)"
        by (auto simp: createNode_def)
      from next_node_mono(2) [of "st1\<lparr>DITypeCache := (DITypeCache st1)(ident \<mapsto> fwd)\<rparr>" ch Scope]
        c2 f
      have "fwd < next_node st2" by simp
      with g None TypeDescriptor True c1 c2 show ?thesis
        by (auto simp: Let_def createNode_def replaceAllUsesWith_def lookup_valid_def
            split: prod.splits)
    next
      case False
      with g None TypeDescriptor show ?thesis
        by (auto simp: createNode_def lookup_valid_def split: prod.splits)
    qed
  qed
qed

lemma getOrCreateType_hit:
  "lookup_valid st (identity d) = Some h \<Longrightarrow> getOrCreateType d Scope st = (h, st)"
  by (cases d) simp

text \<open>
  Claim C3. For descriptors \<open>d1\<close> and \<open>d2\<close> of equal identity, of any kind and with any
  children, and from any state of the sink and the cache: a call of \<open>getOrCreateType\<close>
  on \<open>d2\<close> right after a call on \<open>d1\<close> returns the node that the first call returned,
  and creates nothing.
\<close>

theorem getOrCreateType_idempotent:
  assumes "identity d1 = identity d2"
  shows "fst (getOrCreateType d2 Scope2 (snd (getOrCreateType d1 Scope1 st))) =
           fst (getOrCreateType d1 Scope1 st)
         \<and> snd (getOrCreateType d2 Scope2 (snd (getOrCreateType d1 Scope1 st))) =
           snd (getOrCreateType d1 Scope1 st)"
proof -
  obtain h st' where g: "getOrCreateType d1 Scope1 st = (h, st')"
    by (cases "getOrCreateType d1 Scope1 st")
  from getOrCreateType_cached [OF g] assms have "lookup_valid st' (identity d2) = Some h"
    by simp
  from getOrCreateType_hit [OF this] g show ?thesis by simp
qed

theorem getOrCreateType_idempotent_witness:
  "identity list_node = identity list_node_again
   \<and> fst (getOrCreateType list_node 0 sink_empty) = 2
   \<and> fst (getOrCreateType list_node_again 7 (snd (getOrCreateType list_node 0 sink_empty))) = 2
   \<and> nodes (snd (getOrCreateType list_node 0 sink_empty)) 2 = Some (TypeNode Struct 128 64 [1, 2])"
proof -
  have i: "identity list_node = identity list_node_again"
    by (simp add: list_node_def list_node_again_def)
  have v: "fst (getOrCreateType list_node 0 sink_empty) = 2
    \<and> nodes (snd (getOrCreateType list_node 0 sink_empty)) 2 = Some (TypeNode Struct 128 64 [1, 2])"
    by (simp add: list_node_def sink_empty_def lookup_valid_def createNode_def
        replaceAllUsesWith_def redirect_def Let_def)
  from getOrCreateType_idempotent [OF i, of 7 0 sink_empty] i v show ?thesis by simp
qed

section \<open>Declaration emitters\<close>

text \<open>
  Claim C7. A call of \<open>emitVariableDeclaration\<close> that gives none of the trailing
  arguments is the call with \<open>ArgNo = 0\<close>, \<open>DirectValue\<close>, \<open>RealValue\<close> and \<open>Declare\<close>
  given explicitly: both run the out-of-line body on these four values.
\<close>

theorem emitVariableDeclaration_defaults:
  "emitVariableDeclaration body B Storage Ty Name Tag Trailing0 di =
     emitVariableDeclaration body B Storage Ty Name Tag
       (Trailing4 0 DirectValue RealValue Declare) di
   \<and> emitVariableDeclaration body B Storage Ty Name Tag Trailing0 di =
     body B Storage Ty Name Tag 0 DirectValue RealValue Declare di
   \<and> default_args Trailing0 = (0, DirectValue, RealValue, Declare)"
  by (simp add: emitVariableDeclaration_def)

text \<open>
  Claim C10. For every \<open>IRGenFunction\<close> whose module pointer \<open>IGM.SILMod\<close> points to a
  module \<open>m\<close>, every function handle and every signature, given or left to its default:
  the inline overload has the effect of the out-of-line overload called on \<open>m\<close> and on
  the builder of the \<open>IRGenFunction\<close>; the emitter it returns is the same, and the
  builder it leaves in the \<open>IRGenFunction\<close> is the builder that overload returns.
\<close>

theorem emitArtificialFunction_overloads_agree:
  assumes "SILMod (IGM IGF) = Some m"
  shows "emitArtificialFunction_IGF body IGF Fn SILTy di =
     Inr (fst (emitArtificialFunction body m (Builder IGF) Fn SILTy di),
          IGF\<lparr>Builder := snd (emitArtificialFunction body m (Builder IGF) Fn SILTy di)\<rparr>)"
  using assms
  by (simp add: emitArtificialFunction_IGF_def emitArtificialFunction_def Let_def
      split: prod.splits option.splits)

theorem emitArtificialFunction_overloads_agree_witness:
  "SILMod (IGM igf_a) = Some (SILModule 3)
   \<and> emitArtificialFunction_IGF body_a igf_a (Some (LLVMFunction 1)) None di_a =
       Inr (fst (emitArtificialFunction body_a (SILModule 3) builder_a (Some (LLVMFunction 1)) None di_a),
            igf_a\<lparr>Builder := snd (emitArtificialFunction body_a (SILModule 3) builder_a
                                    (Some (LLVMFunction 1)) None di_a)\<rparr>)
   \<and> snd (emitArtificialFunction body_a (SILModule 3) builder_a (Some (LLVMFunction 1)) None di_a)
       = \<lparr>CurrentDebugLocation = DebugLoc_empty\<rparr>"
proof -
  have p: "SILMod (IGM igf_a) = Some (SILModule 3)" by (simp add: igf_a_def)
  have b: "Builder igf_a = builder_a" by (simp add: igf_a_def)
  from emitArtificialFunction_overloads_agree [OF p, of body_a "Some (LLVMFunction 1)" None di_a]
    p b
  show ?thesis
    by (simp add: emitArtificialFunction_def body_a_def clearLoc_def Let_def
        SetCurrentDebugLocation_def builder_a_def)
qed


end
